theory Spec2Isabelle
  imports Main "HOL-Library.Sublist"
begin

section \<open>Strings, numbers and the output allocator of \<open>lib.ts\<close>\<close>

text \<open>
  A JavaScript string is a sequence of UTF-16 code units; it is modelled as a list of natural
  numbers, one per code unit, so that every text is covered. A literal of the program is
  written \<open>lit ''...''\<close>: the code units of its (ASCII) characters.

  \<open>String.prototype.toLowerCase\<close> is a function of the platform; its Unicode case table is
  not part of the repository. It is a parameter \<open>lower\<close> of every definition that calls it, and
  the theorems hold for every function in its place.

  Numbers that the program uses as counters and indices are integers; they are modelled as
  \<^typ>\<open>nat\<close> and \<^typ>\<open>int\<close>.
\<close>

subsection \<open>Characters\<close>

type_synonym jsstring = "nat list"

definition lit :: "string \<Rightarrow> jsstring" where
  "lit s = map (of_char :: char \<Rightarrow> nat) s"

text \<open>
  The class \<open>\s\<close> of ECMAScript regular expressions: the white space and line terminator
  code points U+0009 .. U+000D, U+0020, U+00A0, U+1680, U+2000 .. U+200A, U+2028, U+2029,
  U+202F, U+205F, U+3000 and U+FEFF.
\<close>

definition isSpace :: "nat \<Rightarrow> bool" where
  "isSpace c =
     ((9 \<le> c \<and> c \<le> 13) \<or> c = 32 \<or> c = 160 \<or> c = 5760 \<or> (8192 \<le> c \<and> c \<le> 8202)
      \<or> c = 8232 \<or> c = 8233 \<or> c = 8239 \<or> c = 8287 \<or> c = 12288 \<or> c = 65279)"

text \<open>The class \<open>[a-z0-9]\<close>.\<close>

definition isLowerAlnum :: "nat \<Rightarrow> bool" where
  "isLowerAlnum c = ((97 \<le> c \<and> c \<le> 122) \<or> (48 \<le> c \<and> c \<le> 57))"

text \<open>The class \<open>[A-Za-z0-9]\<close>.\<close>

definition isAlnum :: "nat \<Rightarrow> bool" where
  "isAlnum c = ((65 \<le> c \<and> c \<le> 90) \<or> isLowerAlnum c)"

subsection \<open>The slug of \<open>genFilename\<close>\<close>

text \<open>\<^verbatim>\<open>.replace(/[^a-z0-9\s]/g, "")\<close>: every code unit outside the class is deleted.\<close>

definition strip_other :: "jsstring \<Rightarrow> jsstring" where
  "strip_other s = filter (\<lambda>c. isLowerAlnum c \<or> isSpace c) s"

text \<open>
  \<^verbatim>\<open>.replace(/\s+/g, "_")\<close>: scanning from the left, each maximal run of whitespace
  is matched as a whole and replaced by one underscore (code unit 95).
\<close>

function collapse_ws :: "jsstring \<Rightarrow> jsstring" where
  "collapse_ws [] = []"
| "collapse_ws (c # cs) =
     (if isSpace c then 95 # collapse_ws (dropWhile isSpace cs)
      else c # collapse_ws cs)"
  by pat_completeness auto
termination
  by (relation "measure length") (auto simp: less_Suc_eq_le length_dropWhile_le)

text \<open>
  \<^verbatim>\<open>let base = prompt.toLowerCase().replace(/[^a-z0-9\s]/g, "").replace(/\s+/g, "_").slice(0, 32) || "image";\<close>
  The empty string is falsy, so \<open>||\<close> selects the literal for it.
\<close>

definition slug :: "(jsstring \<Rightarrow> jsstring) \<Rightarrow> jsstring \<Rightarrow> jsstring" where
  "slug lower prompt =
     (let s = take 32 (collapse_ws (strip_other (lower prompt)))
      in if s = [] then lit ''image'' else s)"

subsection \<open>Decimal numerals of template literals\<close>

text \<open>\<^verbatim>\<open>${c}\<close> for a non-negative integer \<open>c\<close>: its decimal digits, without leading zeros.\<close>

definition digit_char :: "nat \<Rightarrow> nat" where
  "digit_char d = 48 + d"

fun showNat :: "nat \<Rightarrow> jsstring" where
  "showNat n = (if n < 10 then [digit_char n] else showNat (n div 10) @ [digit_char (n mod 10)])"

declare showNat.simps [simp del]

subsection \<open>\<open>genFilename\<close>\<close>

text \<open>
  The directory is the set of the file names that exist in it:
  \<^verbatim>\<open>fs.existsSync(path.join(out, name))\<close> is \<open>name \<in> dir\<close>. In \<open>lib.ts\<close> the directory
  is the argument \<open>outputDir\<close> (or the default output directory), in the single-file variant
  of the program always the default one; the body is the same.

  \<^verbatim>\<open>
  let name = `${base}.png`;
  let c = idx > 0 ? idx : 1;
  while (fs.existsSync(path.join(out, name))) {
    name = `${base}_${c++}.png`;
  }
  return name;
  \<close>
  The loop may run forever on an infinite directory, so it returns an option. The last
  argument is a ghost counter of the calls of \<open>existsSync\<close>; it is returned with the name.
\<close>

partial_function (option) genFilename_loop ::
  "jsstring set \<Rightarrow> jsstring \<Rightarrow> jsstring \<Rightarrow> nat \<Rightarrow> nat \<Rightarrow> (jsstring \<times> nat) option" where
  "genFilename_loop dir base name c probes =
     (if name \<in> dir
      then genFilename_loop dir base (base @ lit ''_'' @ showNat c @ lit ''.png'') (c + 1)
             (probes + 1)
      else Some (name, probes + 1))"

definition genFilename_run ::
  "(jsstring \<Rightarrow> jsstring) \<Rightarrow> jsstring \<Rightarrow> nat \<Rightarrow> jsstring set \<Rightarrow> (jsstring \<times> nat) option" where
  "genFilename_run lower prompt idx dir =
     (let base = slug lower prompt;
          name = base @ lit ''.png'';
          c = (if idx > 0 then idx else 1)
      in genFilename_loop dir base name c 0)"

definition genFilename ::
  "(jsstring \<Rightarrow> jsstring) \<Rightarrow> jsstring \<Rightarrow> nat \<Rightarrow> jsstring set \<Rightarrow> jsstring option" where
  "genFilename lower prompt idx dir = map_option fst (genFilename_run lower prompt idx dir)"

text \<open>The number of existence checks that one call of \<open>genFilename\<close> makes.\<close>

definition genFilename_probes ::
  "(jsstring \<Rightarrow> jsstring) \<Rightarrow> jsstring \<Rightarrow> nat \<Rightarrow> jsstring set \<Rightarrow> nat option" where
  "genFilename_probes lower prompt idx dir = map_option snd (genFilename_run lower prompt idx dir)"

text \<open>
  The candidate sequence in the words of the specification: \<open>slug.png\<close>, \<open>slug_c.png\<close>,
  \<open>slug_{c+1}.png\<close>, ..., where the counter \<open>c\<close> starts at the ordinal if that is positive
  and at 1 otherwise.
\<close>

definition start_counter :: "nat \<Rightarrow> nat" where
  "start_counter idx = (if idx > 0 then idx else 1)"

definition candidate :: "jsstring \<Rightarrow> nat \<Rightarrow> nat \<Rightarrow> jsstring" where
  "candidate base c k =
     (if k = 0 then base @ lit ''.png''
      else base @ lit ''_'' @ showNat (c + (k - 1)) @ lit ''.png'')"

text \<open>Reading a decimal numeral back; used to show that \<open>showNat\<close> is injective.\<close>

definition digit_val :: "nat \<Rightarrow> nat" where
  "digit_val ch = ch - 48"

definition readNat :: "jsstring \<Rightarrow> nat" where
  "readNat s = foldl (\<lambda>acc ch. 10 * acc + digit_val ch) 0 s"

text \<open>
  The specification's wording of the whitespace step, "replace each run of whitespace with a
  single underscore", as a scan that remembers whether the previous character was whitespace.
\<close>

fun squeeze_ws :: "bool \<Rightarrow> jsstring \<Rightarrow> jsstring" where
  "squeeze_ws prev [] = []"
| "squeeze_ws prev (c # cs) =
     (if isSpace c then (if prev then squeeze_ws True cs else 95 # squeeze_ws True cs)
      else c # squeeze_ws False cs)"

definition spec_slug :: "(jsstring \<Rightarrow> jsstring) \<Rightarrow> jsstring \<Rightarrow> jsstring" where
  "spec_slug lower text =
     (let lowered = lower text;
          kept = filter (\<lambda>c. isLowerAlnum c \<or> isSpace c) lowered;
          sanitized = squeeze_ws False kept;
          truncated = take 32 sanitized
      in if truncated = [] then lit ''image'' else truncated)"

section \<open>Prompt expansion in \<open>generate\<close>\<close>

text \<open>
  A JavaScript number that the program uses as a count: an integer, or \<open>NaN\<close> (what
  \<open>parseInt\<close> returns for a text without digits); these are the values that the command line
  passes. An optional field is an \<open>option\<close>.
\<close>

datatype jsnum = Number int | NaN

record GenerateOptions =
  count :: "jsnum option"
  styles :: "jsstring list option"
  variations :: "jsstring list option"

text \<open>What the program throws: the missing credential, and the \<open>RangeError\<close> of \<open>Array(n)\<close>.\<close>

datatype error = NoApiKey | RangeError

text \<open>Truthiness of an optional number: \<open>undefined\<close>, \<open>NaN\<close> and \<open>0\<close> are falsy.\<close>

fun truthy_count :: "jsnum option \<Rightarrow> bool" where
  "truthy_count None = False"
| "truthy_count (Some NaN) = False"
| "truthy_count (Some (Number c)) = (c \<noteq> 0)"

text \<open>\<^verbatim>\<open>opts.count > 1\<close> and \<^verbatim>\<open>prompts.length > opts.count\<close>: comparisons with \<open>NaN\<close>
  and with \<open>undefined\<close> are false.\<close>

fun count_gt :: "jsnum option \<Rightarrow> int \<Rightarrow> bool" where
  "count_gt (Some (Number c)) n = (c > n)"
| "count_gt _ n = False"

fun gt_count :: "int \<Rightarrow> jsnum option \<Rightarrow> bool" where
  "gt_count n (Some (Number c)) = (n > c)"
| "gt_count n _ = False"

text \<open>\<^verbatim>\<open>opts.styles?.length\<close> and \<^verbatim>\<open>opts.variations?.length\<close> as conditions.\<close>

fun has_length :: "jsstring list option \<Rightarrow> bool" where
  "has_length None = False"
| "has_length (Some xs) = (length xs \<noteq> 0)"

text \<open>\<^verbatim>\<open>if (opts.styles?.length) prompts = opts.styles.map(s => `${prompt}, ${s} style`);\<close>\<close>

definition style_step :: "jsstring \<Rightarrow> jsstring list option \<Rightarrow> jsstring list \<Rightarrow> jsstring list" where
  "style_step prompt sts prompts =
     (if has_length sts then map (\<lambda>s. prompt @ lit '', '' @ s @ lit '' style'') (the sts)
      else prompts)"

text \<open>
  The body of the inner loop over the variations:
  \<^verbatim>\<open>
  if (v === "lighting") { prompts.push(`${b}, dramatic lighting`); prompts.push(`${b}, soft lighting`); }
  else if (v === "mood") { prompts.push(`${b}, cheerful mood`); prompts.push(`${b}, dramatic mood`); }
  else prompts.push(`${b}, ${v}`);
  \<close>
\<close>

definition push_variation :: "jsstring list \<Rightarrow> jsstring \<Rightarrow> jsstring \<Rightarrow> jsstring list" where
  "push_variation prompts b v =
     (if v = lit ''lighting''
      then (prompts @ [b @ lit '', dramatic lighting'']) @ [b @ lit '', soft lighting'']
      else if v = lit ''mood''
      then (prompts @ [b @ lit '', cheerful mood'']) @ [b @ lit '', dramatic mood'']
      else prompts @ [b @ lit '', '' @ v])"

text \<open>
  \<^verbatim>\<open>
  if (opts.variations?.length) {
    const base = prompts;
    prompts = [];
    for (const b of base) { for (const v of opts.variations) { ... } }
  }
  \<close>
\<close>

definition variation_step :: "jsstring list option \<Rightarrow> jsstring list \<Rightarrow> jsstring list" where
  "variation_step vars prompts =
     (if has_length vars
      then foldl (\<lambda>acc b. foldl (\<lambda>acc' v. push_variation acc' b v) acc (the vars)) [] prompts
      else prompts)"

text \<open>
  \<open>Array(n)\<close> for an integer \<open>n\<close>: an array of length \<open>n\<close> when \<open>0 \<le> n < 2^32\<close>, and a
  \<open>RangeError\<close> ("Invalid array length") otherwise; \<open>.fill(x)\<close> then sets every element.
\<close>

definition array_fill :: "int \<Rightarrow> 'a \<Rightarrow> error + 'a list" where
  "array_fill n x =
     (if 0 \<le> n \<and> n < 4294967296 then Inr (replicate (nat n) x) else Inl RangeError)"

text \<open>\<^verbatim>\<open>if (opts.count && opts.count > 1 && prompts.length === 1) prompts = Array(opts.count).fill(prompt);\<close>\<close>

definition replicate_step ::
  "jsstring \<Rightarrow> jsnum option \<Rightarrow> jsstring list \<Rightarrow> error + jsstring list" where
  "replicate_step prompt cnt prompts =
     (if truthy_count cnt \<and> count_gt cnt 1 \<and> length prompts = 1
      then (case cnt of Some (Number c) \<Rightarrow> array_fill c prompt | _ \<Rightarrow> Inr prompts)
      else Inr prompts)"

text \<open>
  \<^verbatim>\<open>xs.slice(0, e)\<close> for an integer \<open>e\<close>: a negative end counts from the end of the array,
  and the end is clamped to the range of the array.
\<close>

definition slice0 :: "'a list \<Rightarrow> int \<Rightarrow> 'a list" where
  "slice0 xs e = (if e < 0 then take (nat (int (length xs) + e)) xs else take (nat e) xs)"

text \<open>\<^verbatim>\<open>if (opts.count && prompts.length > opts.count) prompts = prompts.slice(0, opts.count);\<close>\<close>

definition truncate_step :: "jsnum option \<Rightarrow> jsstring list \<Rightarrow> jsstring list" where
  "truncate_step cnt prompts =
     (if truthy_count cnt \<and> gt_count (int (length prompts)) cnt
      then (case cnt of Some (Number c) \<Rightarrow> slice0 prompts c | _ \<Rightarrow> prompts)
      else prompts)"

text \<open>
  Lines 109 to 123 of \<open>generate\<close>: the list of prompts that is submitted, or the error that
  line 122 throws.
\<close>

definition expand_prompts :: "jsstring \<Rightarrow> GenerateOptions \<Rightarrow> error + jsstring list" where
  "expand_prompts prompt opts =
     (let prompts = [prompt];
          prompts = style_step prompt (styles opts) prompts;
          prompts = variation_step (variations opts) prompts
      in case replicate_step prompt (count opts) prompts of
           Inl e \<Rightarrow> Inl e
         | Inr prompts \<Rightarrow> Inr (truncate_step (count opts) prompts))"

text \<open>
  The expansions of one variation tag as the specification lists them: two prompts for
  \<open>lighting\<close>, two for \<open>mood\<close>, one for every other tag.
\<close>

definition tag_expansion :: "jsstring \<Rightarrow> jsstring \<Rightarrow> jsstring list" where
  "tag_expansion b t =
     (if t = lit ''lighting'' then [b @ lit '', dramatic lighting'', b @ lit '', soft lighting'']
      else if t = lit ''mood'' then [b @ lit '', cheerful mood'', b @ lit '', dramatic mood'']
      else [b @ lit '', '' @ t])"

section \<open>The credential\<close>

text \<open>
  \<open>process.env\<close> is a map from variable names to texts. \<open>a || b\<close> on optional texts yields
  \<open>a\<close> when it is truthy (present and non-empty) and \<open>b\<close> otherwise.
\<close>

type_synonym env = "string \<rightharpoonup> jsstring"

definition truthy :: "jsstring option \<Rightarrow> bool" where
  "truthy v = (case v of None \<Rightarrow> False | Some t \<Rightarrow> t \<noteq> [])"

definition js_or :: "jsstring option \<Rightarrow> jsstring option \<Rightarrow> jsstring option" where
  "js_or a b = (if truthy a then a else b)"

definition error_text :: "error \<Rightarrow> jsstring" where
  "error_text e =
     (case e of
        NoApiKey \<Rightarrow> lit ''No API key found. Set GEMINI_API_KEY environment variable.''
      | RangeError \<Rightarrow> lit ''Invalid array length'')"

text \<open>
  \<^verbatim>\<open>
  const key = process.env.NANOBANANA_GEMINI_API_KEY || process.env.GEMINI_API_KEY || process.env.GOOGLE_API_KEY;
  if (!key) { throw new Error("No API key found. Set GEMINI_API_KEY environment variable."); }
  return key;
  \<close>
  The single-file variant of the program prints the message and calls \<open>process.exit(1)\<close> at
  the place of the \<open>throw\<close>.
\<close>

definition getApiKey :: "env \<Rightarrow> error + jsstring" where
  "getApiKey env =
     (let key = js_or (js_or (env ''NANOBANANA_GEMINI_API_KEY'') (env ''GEMINI_API_KEY''))
                  (env ''GOOGLE_API_KEY'')
      in if \<not> truthy key then Inl NoApiKey else Inr (the key))"

text \<open>The first non-empty value among the variables of a list, in the order of the list.\<close>

fun first_non_empty :: "env \<Rightarrow> string list \<Rightarrow> jsstring option" where
  "first_non_empty env [] = None"
| "first_non_empty env (v # vs) = (if truthy (env v) then env v else first_non_empty env vs)"

section \<open>The remote call and the batch loop of \<open>generate\<close>\<close>

text \<open>
  A part of the first candidate of a response: \<open>part.inlineData?.data\<close> and \<open>part.text\<close>.
\<close>

record part =
  inlineData_data :: "jsstring option"
  part_text :: "jsstring option"

text \<open>
  \<^verbatim>\<open>return !!d && d.length > 1000 && /^[A-Za-z0-9+/]*={0,2}$/.test(d);\<close>
  (\<open>+\<close> is the code unit 43, \<open>/\<close> is 47.)
\<close>

definition isBase64Char :: "nat \<Rightarrow> bool" where
  "isBase64Char c = (isAlnum c \<or> c = 43 \<or> c = 47)"

definition isBase64 :: "jsstring \<Rightarrow> bool" where
  "isBase64 d =
     (d \<noteq> [] \<and> length d > 1000 \<and>
      (let pad = dropWhile isBase64Char d in pad = [] \<or> pad = lit ''='' \<or> pad = lit ''==''))"

text \<open>
  \<^verbatim>\<open>const b64 = part.inlineData?.data || (part.text && isBase64(part.text) ? part.text : null);\<close>
  The result is \<open>None\<close> when \<open>b64\<close> is falsy.
\<close>

definition part_b64 :: "part \<Rightarrow> jsstring option" where
  "part_b64 p =
     (if truthy (inlineData_data p) then inlineData_data p
      else if truthy (part_text p) \<and> isBase64 (the (part_text p)) then part_text p
      else None)"

text \<open>The loop over the parts, left at the first part that holds image data.\<close>

fun first_image :: "part list \<Rightarrow> jsstring option" where
  "first_image [] = None"
| "first_image (p # ps) = (case part_b64 p of Some b64 \<Rightarrow> Some b64 | None \<Rightarrow> first_image ps)"

text \<open>
  The remote service is a parameter: its answer to the \<open>i\<close>-th request of a batch, made with
  a prompt, is either an exception (with the text that \<open>e.message || e\<close> renders) or the parts
  \<open>res.candidates?.[0]?.content?.parts || []\<close> of the response.
\<close>

datatype api_result = Throws jsstring | Response "part list"

type_synonym api = "nat \<Rightarrow> jsstring \<Rightarrow> api_result"

datatype log_entry = ConsoleLog jsstring | ConsoleError jsstring

text \<open>
  The state of a run: the returned list \<open>files\<close>, the output directory \<open>disk\<close> (file name to
  the base64 text of its content; every write succeeds), the lines written to the console, and
  as a ghost field the prompts submitted to the service so far.
\<close>

record run_state =
  files :: "jsstring list"
  disk :: "jsstring \<rightharpoonup> jsstring"
  console :: "log_entry list"
  requests :: "jsstring list"

text \<open>\<open>path.join(out, name)\<close> for a normalised directory path and a plain file name.\<close>

definition path_join :: "jsstring \<Rightarrow> jsstring \<Rightarrow> jsstring" where
  "path_join out name = out @ lit ''/'' @ name"

text \<open>
  \<^verbatim>\<open>
  const full = path.join(out, filename);
  await fs.promises.writeFile(full, Buffer.from(b64, "base64"));
  return full;
  \<close>
\<close>

definition saveImage ::
  "jsstring \<Rightarrow> jsstring \<Rightarrow> jsstring \<Rightarrow> run_state \<Rightarrow> jsstring \<times> run_state" where
  "saveImage b64 filename out st =
     (path_join out filename, st\<lparr>disk := (disk st)(filename \<mapsto> b64)\<rparr>)"

text \<open>
  One iteration of the loop of \<open>generate\<close>:
  \<^verbatim>\<open>
  try {
    const res = await ai.models.generateContent({ ..., parts: [{ text: prompts[i] }] ... });
    for (const part of res.candidates?.[0]?.content?.parts || []) {
      const b64 = ...;
      if (b64) {
        const filename = genFilename(prompts[i], i, outputDir);
        const f = await saveImage(b64, filename, outputDir);
        files.push(f);
        console.log(`  ${f}`);
        break;
      }
    }
  } catch (e: any) { console.error(`  Error: ${e.message || e}`); }
  \<close>
\<close>

definition generate_item ::
  "(jsstring \<Rightarrow> jsstring) \<Rightarrow> api \<Rightarrow> jsstring \<Rightarrow> nat \<Rightarrow> jsstring \<Rightarrow> run_state
    \<Rightarrow> run_state option" where
  "generate_item lower api out i p st =
     (let st1 = st\<lparr>requests := requests st @ [p]\<rparr>
      in case api i p of
           Throws msg \<Rightarrow>
             Some (st1\<lparr>console := console st1 @ [ConsoleError (lit ''  Error: '' @ msg)]\<rparr>)
         | Response parts \<Rightarrow>
             (case first_image parts of
                None \<Rightarrow> Some st1
              | Some b64 \<Rightarrow>
                  (case genFilename lower p i (dom (disk st1)) of
                     None \<Rightarrow> None
                   | Some filename \<Rightarrow>
                       (let (f, st2) = saveImage b64 filename out st1
                        in Some (st2\<lparr>files := files st2 @ [f],
                                     console := console st2 @ [ConsoleLog (lit ''  '' @ f)]\<rparr>)))))"

text \<open>\<^verbatim>\<open>for (let i = 0; i < prompts.length; i++) { ... prompts[i] ... }\<close>\<close>

fun generate_loop ::
  "(jsstring \<Rightarrow> jsstring) \<Rightarrow> api \<Rightarrow> jsstring \<Rightarrow> nat \<Rightarrow> jsstring list \<Rightarrow> run_state
    \<Rightarrow> run_state option" where
  "generate_loop lower api out i [] st = Some st"
| "generate_loop lower api out i (p # ps) st =
     (case generate_item lower api out i p st of
        None \<Rightarrow> None
      | Some st' \<Rightarrow> generate_loop lower api out (Suc i) ps st')"

text \<open>
  \<open>generate\<close>: the credential is read first and its absence is thrown before anything else
  happens; then the prompts are expanded (which throws when \<open>Array(opts.count)\<close> does),
  announced and submitted one after the other.
  (Opening the files for \<open>preview\<close> does not change the result and is left out.)
\<close>

definition generate ::
  "(jsstring \<Rightarrow> jsstring) \<Rightarrow> env \<Rightarrow> api \<Rightarrow> jsstring \<Rightarrow> (jsstring \<rightharpoonup> jsstring) \<Rightarrow> jsstring
    \<Rightarrow> GenerateOptions \<Rightarrow> (error + run_state) option" where
  "generate lower env api out disk0 prompt opts =
     (case getApiKey env of
        Inl e \<Rightarrow> Some (Inl e)
      | Inr key \<Rightarrow>
          (case expand_prompts prompt opts of
             Inl e \<Rightarrow> Some (Inl e)
           | Inr prompts \<Rightarrow>
               (let st0 = \<lparr>files = [], disk = disk0,
                      console = [ConsoleLog (lit ''Generating '' @ showNat (length prompts)
                                              @ lit '' image(s)...'')],
                      requests = []\<rparr>
                in map_option Inr (generate_loop lower api out 0 prompts st0))))"

text \<open>What an item of a batch yields: the image data of the response, if there is any.\<close>

definition item_image :: "api \<Rightarrow> nat \<Rightarrow> jsstring \<Rightarrow> jsstring option" where
  "item_image api i p =
     (case api i p of Throws msg \<Rightarrow> None | Response parts \<Rightarrow> first_image parts)"

text \<open>The console lines of a failing item: one error line for an exception, none otherwise.\<close>

definition failure_lines :: "api \<Rightarrow> nat \<Rightarrow> jsstring \<Rightarrow> log_entry list" where
  "failure_lines api i p =
     (case api i p of
        Throws msg \<Rightarrow> [ConsoleError (lit ''  Error: '' @ msg)]
      | Response parts \<Rightarrow> [])"

text \<open>The number of items of a batch, starting at index \<open>i\<close>, that yield an image.\<close>

fun successes :: "api \<Rightarrow> nat \<Rightarrow> jsstring list \<Rightarrow> nat" where
  "successes api i [] = 0"
| "successes api i (p # ps) =
     (if item_image api i p = None then 0 else 1) + successes api (Suc i) ps"

section \<open>The \<open>generate\<close> command of \<open>cli.ts\<close>\<close>

text \<open>
  \<open>parseInt(s)\<close> without a radix, on integers of any size: leading whitespace is skipped, a
  sign is read, the prefix \<open>0x\<close> or \<open>0X\<close> selects radix 16, and the longest run of digits of
  the radix is the value; without a digit the result is \<open>NaN\<close>.
\<close>

definition digit_value :: "nat \<Rightarrow> nat option" where
  "digit_value c =
     (if 48 \<le> c \<and> c \<le> 57 then Some (c - 48)
      else if 97 \<le> c \<and> c \<le> 122 then Some (c - 87)
      else if 65 \<le> c \<and> c \<le> 90 then Some (c - 55)
      else None)"

definition isRadixDigit :: "nat \<Rightarrow> nat \<Rightarrow> bool" where
  "isRadixDigit r c = (case digit_value c of None \<Rightarrow> False | Some d \<Rightarrow> d < r)"

definition parseInt :: "jsstring \<Rightarrow> jsnum" where
  "parseInt s =
     (let s1 = dropWhile isSpace s;
          sign = (if take 1 s1 = lit ''-'' then - 1 else (1::int));
          s2 = (if take 1 s1 = lit ''+'' \<or> take 1 s1 = lit ''-'' then drop 1 s1 else s1);
          hex = (take 2 s2 = lit ''0x'' \<or> take 2 s2 = lit ''0X'');
          r = (if hex then 16 else 10);
          s3 = (if hex then drop 2 s2 else s2);
          z = takeWhile (isRadixDigit r) s3
      in if z = [] then NaN
         else Number (sign * int (foldl (\<lambda>acc c. r * acc + the (digit_value c)) 0 z)))"

text \<open>\<open>s.split(",")\<close> (the comma is the code unit 44) and \<open>pos.join(" ")\<close>.\<close>

fun split_on :: "nat \<Rightarrow> jsstring \<Rightarrow> jsstring list" where
  "split_on sep [] = [[]]"
| "split_on sep (c # cs) =
     (if c = sep then [] # split_on sep cs
      else (case split_on sep cs of [] \<Rightarrow> [[c]] | w # ws \<Rightarrow> (c # w) # ws))"

fun join_with :: "jsstring \<Rightarrow> jsstring list \<Rightarrow> jsstring" where
  "join_with sep [] = []"
| "join_with sep [x] = x"
| "join_with sep (x # y # ys) = x @ sep @ join_with sep (y # ys)"

text \<open>
  The options that the \<open>generate\<close> command builds from the flags:
  \<^verbatim>\<open>
  count: flags.count ? parseInt(flags.count) : undefined,
  styles: flags.styles?.split(","),
  variations: flags.variations?.split(","),
  \<close>
\<close>

definition main_options :: "(string \<rightharpoonup> jsstring) \<Rightarrow> GenerateOptions" where
  "main_options flags =
     \<lparr>count = (if truthy (flags ''count'') then Some (parseInt (the (flags ''count''))) else None),
      styles = map_option (split_on 44) (flags ''styles''),
      variations = map_option (split_on 44) (flags ''variations'')\<rparr>"

text \<open>
  The \<open>generate\<close> case of \<open>main\<close> with the handler \<^verbatim>\<open>main().catch(e => { console.error(e); process.exit(1); })\<close>:
  the exit code of the process and the final state.
\<close>

definition main_generate ::
  "(jsstring \<Rightarrow> jsstring) \<Rightarrow> env \<Rightarrow> api \<Rightarrow> jsstring \<Rightarrow> (jsstring \<rightharpoonup> jsstring) \<Rightarrow> jsstring list
    \<Rightarrow> (string \<rightharpoonup> jsstring) \<Rightarrow> (nat \<times> run_state) option" where
  "main_generate lower env api out disk0 pos flags =
     (let prompt = join_with (lit '' '') pos
      in if prompt = []
         then Some (1, \<lparr>files = [], disk = disk0,
                         console = [ConsoleError (lit ''Error: provide a prompt'')],
                         requests = []\<rparr>)
         else (case generate lower env api out disk0 prompt (main_options flags) of
                 None \<Rightarrow> None
               | Some (Inl e) \<Rightarrow>
                   Some (1, \<lparr>files = [], disk = disk0,
                              console = [ConsoleError (error_text e)], requests = []\<rparr>)
               | Some (Inr st) \<Rightarrow> Some (0, st)))"

section \<open>Sample services and environments\<close>

text \<open>
  \<open>toLowerCase\<close> on texts of ASCII code units, which all the sample inputs are: \<open>A-Z\<close> go to
  \<open>a-z\<close>.
\<close>

definition toLowerCase_ascii :: "jsstring \<Rightarrow> jsstring" where
  "toLowerCase_ascii s = map (\<lambda>c. if 65 \<le> c \<and> c \<le> 90 then c + 32 else c) s"

text \<open>A service whose third answer is an exception; every other answer holds an image.\<close>

definition flaky_api :: api where
  "flaky_api i p =
     (if i = 2 then Throws (lit ''quota exceeded'')
      else Response [\<lparr>inlineData_data = Some (lit ''iVBORw0KGgo=''), part_text = None\<rparr>])"

text \<open>A service that answers without any part, and one that always fails.\<close>

definition empty_api :: api where
  "empty_api i p = Response []"

definition failing_api :: api where
  "failing_api i p = Throws (lit ''unavailable'')"

definition no_files :: "jsstring \<rightharpoonup> jsstring" where
  "no_files = Map.empty"

definition env_with_key :: env where
  "env_with_key = [''GEMINI_API_KEY'' \<mapsto> lit ''secret'']"

definition env_with_override :: env where
  "env_with_override =
     [''NANOBANANA_GEMINI_API_KEY'' \<mapsto> lit ''override'', ''GEMINI_API_KEY'' \<mapsto> lit ''gemini'']"

definition flags_count_20 :: "string \<rightharpoonup> jsstring" where
  "flags_count_20 = [''count'' \<mapsto> lit ''20'']"

definition flags_count_4 :: "string \<rightharpoonup> jsstring" where
  "flags_count_4 = [''count'' \<mapsto> lit ''4'']"

definition flags_count_2_32 :: "string \<rightharpoonup> jsstring" where
  "flags_count_2_32 = [''count'' \<mapsto> lit ''4294967296'']"

definition initial_state :: run_state where
  "initial_state = \<lparr>files = [], disk = no_files, console = [], requests = []\<rparr>"

section \<open>Properties of the output allocator\<close>

lemma digit_val_digit_char: "digit_val (digit_char d) = d"
  by (simp add: digit_val_def digit_char_def)

lemma readNat_showNat: "readNat (showNat n) = n"
proof (induction n rule: showNat.induct)
  case (1 n)
  show ?case
  proof (cases "n < 10")
    case True
    then show ?thesis
      by (subst showNat.simps) (simp add: readNat_def digit_val_digit_char)
  next
    case False
    with 1 have "readNat (showNat (n div 10)) = n div 10" by simp
    with False show ?thesis
      by (subst showNat.simps) (simp add: readNat_def digit_val_digit_char)
  qed
qed

lemma showNat_inj: "showNat m = showNat n \<Longrightarrow> m = n"
  by (metis readNat_showNat)

lemma candidate_inj: "candidate base c j = candidate base c k \<Longrightarrow> j = k"
  by (auto simp: candidate_def lit_def split: if_splits dest!: showNat_inj)

text \<open>
  The loop state after \<open>j\<close> iterations is the \<open>j\<close>-th candidate together with the
  counter \<open>c + j\<close>.
\<close>

lemma loop_step:
  "candidate base c j \<in> dir \<Longrightarrow>
   genFilename_loop dir base (candidate base c j) (c + j) p =
   genFilename_loop dir base (candidate base c (Suc j)) (c + Suc j) (Suc p)"
  by (subst genFilename_loop.simps) (simp add: candidate_def)

lemma loop_stop:
  "candidate base c j \<notin> dir \<Longrightarrow>
   genFilename_loop dir base (candidate base c j) (c + j) p = Some (candidate base c j, Suc p)"
  by (subst genFilename_loop.simps) simp

lemma loop_skip:
  "(\<And>j. j < k \<Longrightarrow> candidate base c j \<in> dir) \<Longrightarrow>
   genFilename_loop dir base (candidate base c 0) (c + 0) p =
   genFilename_loop dir base (candidate base c k) (c + k) (p + k)"
proof (induction k)
  case 0
  then show ?case by simp
next
  case (Suc k)
  have "genFilename_loop dir base (candidate base c 0) (c + 0) p =
        genFilename_loop dir base (candidate base c k) (c + k) (p + k)"
    using Suc by simp
  also have "\<dots> = genFilename_loop dir base (candidate base c (Suc k)) (c + Suc k) (Suc (p + k))"
    using Suc.prems by (intro loop_step) simp
  finally show ?case by simp
qed

lemma free_candidate:
  assumes "finite dir"
  shows "\<exists>k. candidate base c k \<notin> dir"
proof (rule ccontr)
  assume "\<not> ?thesis"
  then have "range (candidate base c) \<subseteq> dir" by auto
  moreover have "inj (candidate base c)"
    by (rule injI) (rule candidate_inj)
  then have "infinite (range (candidate base c))"
    using finite_imageD infinite_UNIV_nat by blast
  ultimately show False using assms finite_subset by blast
qed

lemma taken_prefix_bound:
  assumes "finite dir" and "\<And>j. j < k \<Longrightarrow> candidate base c j \<in> dir"
  shows "k \<le> card dir"
proof -
  have "inj_on (candidate base c) {..<k}"
    by (rule inj_onI) (rule candidate_inj)
  then have "card (candidate base c ` {..<k}) = k"
    by (simp add: card_image)
  moreover have "candidate base c ` {..<k} \<subseteq> dir"
    using assms(2) by auto
  ultimately show ?thesis
    using assms(1) card_mono by metis
qed

lemma loop_first_free:
  assumes "finite dir"
  shows "\<exists>k. k \<le> card dir \<and> (\<forall>j<k. candidate base c j \<in> dir) \<and> candidate base c k \<notin> dir \<and>
             genFilename_loop dir base (base @ lit ''.png'') c 0 = Some (candidate base c k, Suc k)"
proof -
  define k where "k = (LEAST k. candidate base c k \<notin> dir)"
  have free: "candidate base c k \<notin> dir"
    unfolding k_def using free_candidate [OF assms] by (rule LeastI_ex)
  have taken: "candidate base c j \<in> dir" if "j < k" for j
    using that not_less_Least unfolding k_def by blast
  have "genFilename_loop dir base (candidate base c 0) (c + 0) 0 =
        genFilename_loop dir base (candidate base c k) (c + k) (0 + k)"
    by (rule loop_skip) (rule taken)
  also have "\<dots> = Some (candidate base c k, Suc (0 + k))"
    by (rule loop_stop) (rule free)
  finally have "genFilename_loop dir base (base @ lit ''.png'') c 0
      = Some (candidate base c k, Suc k)"
    by (simp add: candidate_def)
  moreover have "k \<le> card dir"
    using assms taken by (rule taken_prefix_bound)
  ultimately show ?thesis using free taken by blast
qed

lemma genFilename_run_first_free:
  assumes "finite dir"
  shows "\<exists>k. k \<le> card dir
           \<and> (\<forall>j<k. candidate (slug lower prompt) (start_counter idx) j \<in> dir)
           \<and> candidate (slug lower prompt) (start_counter idx) k \<notin> dir
           \<and> genFilename_run lower prompt idx dir =
                 Some (candidate (slug lower prompt) (start_counter idx) k, Suc k)"
  using loop_first_free [OF assms, of "slug lower prompt" "start_counter idx"]
  by (simp add: genFilename_run_def start_counter_def Let_def)

text \<open>
  Claim C1. For every prompt, every ordinal \<open>idx\<close> and every directory with finitely many
  file names, \<open>genFilename\<close> returns, and what it returns is the first name of the sequence
  \<open>slug.png\<close>, \<open>slug_c.png\<close>, \<open>slug_{c+1}.png\<close>, ... that does not exist in the directory,
  where \<open>c\<close> is \<open>idx\<close> if \<open>idx > 0\<close> and \<open>1\<close> otherwise: the name is free and every
  earlier candidate exists.
\<close>

theorem genFilename_first_free:
  assumes "finite dir"
  shows "\<exists>k. genFilename lower prompt idx dir
               = Some (candidate (slug lower prompt) (start_counter idx) k)
           \<and> candidate (slug lower prompt) (start_counter idx) k \<notin> dir
           \<and> (\<forall>j<k. candidate (slug lower prompt) (start_counter idx) j \<in> dir)"
proof -
  obtain k where "\<forall>j<k. candidate (slug lower prompt) (start_counter idx) j \<in> dir"
    and "candidate (slug lower prompt) (start_counter idx) k \<notin> dir"
    and "genFilename_run lower prompt idx dir =
           Some (candidate (slug lower prompt) (start_counter idx) k, Suc k)"
    using genFilename_run_first_free [OF assms] by blast
  then show ?thesis
    by (intro exI [of _ k]) (simp add: genFilename_def)
qed

lemma slug_test: "slug toLowerCase_ascii (lit ''test'') = lit ''test''"
  by (simp add: slug_def toLowerCase_ascii_def strip_other_def isSpace_def isLowerAlnum_def
      lit_def)

lemma showNat_1: "showNat (Suc 0) = lit ''1''"
  by (simp add: showNat.simps digit_char_def lit_def)

lemma showNat_2: "showNat (Suc (Suc 0)) = lit ''2''"
  by (simp add: showNat.simps digit_char_def lit_def)

lemma genFilename_run_test:
  "genFilename_run toLowerCase_ascii (lit ''test'') 0 {lit ''test.png'', lit ''test_1.png''}
     = Some (lit ''test_2.png'', 3)"
proof -
  let ?dir = "{lit ''test.png'', lit ''test_1.png''}"
  have "genFilename_loop ?dir (lit ''test'') (lit ''test.png'') 1 0 =
        genFilename_loop ?dir (lit ''test'') (lit ''test_1.png'') 2 1"
    by (subst genFilename_loop.simps) (simp add: showNat_1 eval_nat_numeral lit_def)
  also have "\<dots> = genFilename_loop ?dir (lit ''test'') (lit ''test_2.png'') 3 2"
    by (subst genFilename_loop.simps) (simp add: showNat_2 eval_nat_numeral lit_def)
  also have "\<dots> = Some (lit ''test_2.png'', 3)"
    by (subst genFilename_loop.simps) (simp add: lit_def)
  finally have run: "genFilename_loop ?dir (lit ''test'') (lit ''test.png'') 1 0
      = Some (lit ''test_2.png'', 3)" .
  have name: "lit ''test'' @ lit ''.png'' = lit ''test.png''"
    by (simp add: lit_def)
  show ?thesis
    unfolding genFilename_run_def slug_test Let_def name using run by simp
qed

theorem genFilename_first_free_witness:
  "finite {lit ''test.png'', lit ''test_1.png''}
   \<and> genFilename toLowerCase_ascii (lit ''test'') 0 {lit ''test.png'', lit ''test_1.png''}
       = Some (lit ''test_2.png'')
   \<and> (\<exists>k. genFilename toLowerCase_ascii (lit ''test'') 0 {lit ''test.png'', lit ''test_1.png''}
             = Some (candidate (slug toLowerCase_ascii (lit ''test'')) (start_counter 0) k)
          \<and> candidate (slug toLowerCase_ascii (lit ''test'')) (start_counter 0) k
               \<notin> {lit ''test.png'', lit ''test_1.png''}
          \<and> (\<forall>j<k. candidate (slug toLowerCase_ascii (lit ''test'')) (start_counter 0) j
                      \<in> {lit ''test.png'', lit ''test_1.png''}))"
  using genFilename_first_free [of "{lit ''test.png'', lit ''test_1.png''}" toLowerCase_ascii
      "lit ''test''" 0]
  by (simp add: genFilename_def genFilename_run_test)

text \<open>
  Claim C10. On a directory with finitely many file names the collision loop terminates: the
  candidates are pairwise distinct (their counters \<open>c\<close>, \<open>c + 1\<close>, ... increase by one in every
  iteration), and a free name is returned after at most \<open>card dir + 1\<close> existence checks.
\<close>

theorem genFilename_terminates:
  assumes "finite dir"
  shows "\<exists>k. k \<le> card dir
           \<and> genFilename lower prompt idx dir
               = Some (candidate (slug lower prompt) (start_counter idx) k)
           \<and> genFilename_probes lower prompt idx dir = Some (k + 1)
           \<and> candidate (slug lower prompt) (start_counter idx) k \<notin> dir
           \<and> inj (candidate (slug lower prompt) (start_counter idx))
           \<and> strict_mono (\<lambda>j. start_counter idx + j)"
proof -
  obtain k where "k \<le> card dir"
    and "candidate (slug lower prompt) (start_counter idx) k \<notin> dir"
    and "genFilename_run lower prompt idx dir =
           Some (candidate (slug lower prompt) (start_counter idx) k, Suc k)"
    using genFilename_run_first_free [OF assms] by blast
  moreover have "inj (candidate (slug lower prompt) (start_counter idx))"
    by (rule injI) (rule candidate_inj)
  moreover have "strict_mono (\<lambda>j. start_counter idx + j)"
    by (simp add: strict_mono_def)
  ultimately show ?thesis
    by (intro exI [of _ k]) (simp add: genFilename_def genFilename_probes_def)
qed

lemma card_test_dir: "card {lit ''test.png'', lit ''test_1.png''} = 2"
  by (simp add: lit_def)

theorem genFilename_terminates_witness:
  "finite {lit ''test.png'', lit ''test_1.png''}
   \<and> genFilename toLowerCase_ascii (lit ''test'') 0 {lit ''test.png'', lit ''test_1.png''}
       = Some (lit ''test_2.png'')
   \<and> genFilename_probes toLowerCase_ascii (lit ''test'') 0 {lit ''test.png'', lit ''test_1.png''}
       = Some 3
   \<and> card {lit ''test.png'', lit ''test_1.png''} = 2
   \<and> (\<exists>k. k \<le> card {lit ''test.png'', lit ''test_1.png''}
          \<and> genFilename toLowerCase_ascii (lit ''test'') 0 {lit ''test.png'', lit ''test_1.png''}
              = Some (candidate (slug toLowerCase_ascii (lit ''test'')) (start_counter 0) k)
          \<and> genFilename_probes toLowerCase_ascii (lit ''test'') 0
               {lit ''test.png'', lit ''test_1.png''} = Some (k + 1)
          \<and> candidate (slug toLowerCase_ascii (lit ''test'')) (start_counter 0) k
               \<notin> {lit ''test.png'', lit ''test_1.png''}
          \<and> inj (candidate (slug toLowerCase_ascii (lit ''test'')) (start_counter 0))
          \<and> strict_mono (\<lambda>j. start_counter 0 + j))"
  using genFilename_terminates [of "{lit ''test.png'', lit ''test_1.png''}" toLowerCase_ascii
      "lit ''test''" 0]
  by (simp add: genFilename_def genFilename_probes_def genFilename_run_test card_test_dir)

section \<open>Properties of the prompt expansion\<close>

lemma foldl_push_variation:
  "foldl (\<lambda>acc' v. push_variation acc' b v) acc vs = acc @ concat (map (tag_expansion b) vs)"
  by (induction vs arbitrary: acc) (auto simp: push_variation_def tag_expansion_def)

lemma foldl_variations:
  "foldl (\<lambda>acc b. foldl (\<lambda>acc' v. push_variation acc' b v) acc vs) acc0 ps =
   acc0 @ concat (map (\<lambda>b. concat (map (tag_expansion b) vs)) ps)"
  by (induction ps arbitrary: acc0) (auto simp: foldl_push_variation)

lemma variation_step_Some:
  "vs \<noteq> [] \<Longrightarrow>
   variation_step (Some vs) ps = concat (map (\<lambda>b. concat (map (tag_expansion b) vs)) ps)"
  by (simp add: variation_step_def foldl_variations)

lemma variation_step_none: "\<not> has_length vars \<Longrightarrow> variation_step vars ps = ps"
  by (simp add: variation_step_def)

lemma style_step_Some:
  "S \<noteq> [] \<Longrightarrow>
   style_step base (Some S) ps = map (\<lambda>s. base @ lit '', '' @ s @ lit '' style'') S"
  by (simp add: style_step_def)

lemma replicate_step_unset: "\<not> truthy_count cnt \<Longrightarrow> replicate_step p cnt ps = Inr ps"
  by (simp add: replicate_step_def)

lemma truncate_step_unset: "\<not> truthy_count cnt \<Longrightarrow> truncate_step cnt ps = ps"
  by (simp add: truncate_step_def)

lemma truncate_step_pos: "0 < c \<Longrightarrow> truncate_step (Some (Number c)) ps = take (nat c) ps"
  by (auto simp: truncate_step_def slice0_def)

lemma replicate_step_single:
  "1 < c \<Longrightarrow> c < 4294967296 \<Longrightarrow> length ps = 1 \<Longrightarrow>
   replicate_step p (Some (Number c)) ps = Inr (replicate (nat c) p)"
  by (simp add: replicate_step_def array_fill_def)

lemma replicate_step_too_large:
  "4294967296 \<le> c \<Longrightarrow> length ps = 1 \<Longrightarrow> replicate_step p (Some (Number c)) ps = Inl RangeError"
  by (simp add: replicate_step_def array_fill_def)

lemma expand_prompts_count:
  "expand_prompts base opts =
     map_sum id (truncate_step (count opts))
       (replicate_step base (count opts)
          (variation_step (variations opts) (style_step base (styles opts) [base])))"
  by (simp add: expand_prompts_def Let_def split: sum.splits)

lemma getApiKey_env_with_key: "getApiKey env_with_key = Inr (lit ''secret'')"
  by (simp add: getApiKey_def env_with_key_def js_or_def truthy_def lit_def)

lemma parseInt_2_32: "parseInt (lit ''4294967296'') = Number 4294967296"
  by (simp add: parseInt_def isSpace_def isRadixDigit_def digit_value_def Let_def lit_def)

text \<open>
  Claim C3, as stated, fails: with the count \<open>2^32\<close> and a single prompt, \<open>Array(opts.count)\<close>
  throws a \<open>RangeError\<close>; the command ends with exit code 1 and submits nothing.
\<close>

theorem expand_range_error_counterexample:
  "expand_prompts (lit ''cat'')
      \<lparr>count = Some (Number 4294967296), styles = None, variations = None\<rparr> = Inl RangeError
   \<and> count (main_options flags_count_2_32) = Some (Number 4294967296)
   \<and> map_option fst
       (main_generate toLowerCase_ascii env_with_key flaky_api (lit ''out'') no_files
          [lit ''cat''] flags_count_2_32) = Some 1
   \<and> map_option (requests \<circ> snd)
       (main_generate toLowerCase_ascii env_with_key flaky_api (lit ''out'') no_files
          [lit ''cat''] flags_count_2_32) = Some []"
proof -
  have opts: "main_options flags_count_2_32 =
      \<lparr>count = Some (Number 4294967296), styles = None, variations = None\<rparr>"
    by (simp add: main_options_def flags_count_2_32_def truthy_def parseInt_2_32)
      (simp add: lit_def)
  have ex: "expand_prompts (lit ''cat'')
      \<lparr>count = Some (Number 4294967296), styles = None, variations = None\<rparr> = Inl RangeError"
    by (simp add: expand_prompts_def style_step_def variation_step_def replicate_step_def
        array_fill_def)
  have "join_with (lit '' '') [lit ''cat''] = lit ''cat''" and "lit ''cat'' \<noteq> []"
    by (simp_all add: lit_def)
  then show ?thesis
    using ex by (simp add: main_generate_def opts generate_def getApiKey_env_with_key)
qed

text \<open>
  Claim C3, amended. For every base prompt and every count \<open>c\<close> with \<open>1 < c < 2^32\<close>: if the
  list after the style and the variation step has exactly one element, the expansion is \<open>c\<close>
  copies of the base prompt itself, whatever suffix that single element carried. For a count
  of \<open>2^32\<close> or more the expansion throws a \<open>RangeError\<close> instead.
\<close>

theorem expand_replicates_base:
  assumes "1 < c" and "count opts = Some (Number c)"
    and "length (variation_step (variations opts) (style_step base (styles opts) [base])) = 1"
  shows "(c < 4294967296 \<longrightarrow> expand_prompts base opts = Inr (replicate (nat c) base))
    \<and> (4294967296 \<le> c \<longrightarrow> expand_prompts base opts = Inl RangeError)"
  using assms
  by (simp add: expand_prompts_count replicate_step_single replicate_step_too_large
      truncate_step_pos)

theorem expand_replicates_base_witness:
  "expand_prompts (lit ''logo'')
      \<lparr>count = Some (Number 3), styles = Some [lit ''modern''], variations = None\<rparr>
     = Inr [lit ''logo'', lit ''logo'', lit ''logo'']
   \<and> variation_step None (style_step (lit ''logo'') (Some [lit ''modern'']) [lit ''logo''])
     = [lit ''logo, modern style'']"
  using expand_replicates_base [of 3
      "\<lparr>count = Some (Number 3), styles = Some [lit ''modern''], variations = None\<rparr>"
      "lit ''logo''"]
  by (simp add: variation_step_def style_step_def eval_nat_numeral lit_def)

text \<open>
  Claim C4. For a non-empty variation list, the variation step replaces each prompt of the
  current list by the concatenation, in the order of the variation list, of the expansions of
  the tags: two prompts for \<open>lighting\<close>, two for \<open>mood\<close>, one for any other tag. Without a count
  this is the whole expansion, and \<open>expand(base, [], ["mood", "x"])\<close> is the three prompts
  \<open>base, cheerful mood\<close>, \<open>base, dramatic mood\<close>, \<open>base, x\<close>.
\<close>

theorem variation_step_nested:
  assumes "vs \<noteq> []"
  shows "variation_step (Some vs) ps = concat (map (\<lambda>b. concat (map (tag_expansion b) vs)) ps)
    \<and> expand_prompts base \<lparr>count = None, styles = sts, variations = Some vs\<rparr> =
        Inr (concat (map (\<lambda>b. concat (map (tag_expansion b) vs)) (style_step base sts [base])))
    \<and> expand_prompts base
        \<lparr>count = None, styles = Some [], variations = Some [lit ''mood'', lit ''x'']\<rparr> =
        Inr [base @ lit '', cheerful mood'', base @ lit '', dramatic mood'', base @ lit '', x'']"
proof -
  have "lit ''x'' \<noteq> lit ''lighting''" and "lit ''x'' \<noteq> lit ''mood''"
    and "lit ''mood'' \<noteq> lit ''lighting''" and "lit '', '' @ lit ''x'' = lit '', x''"
    by (simp_all add: lit_def)
  then show ?thesis
    using assms
    by (simp add: expand_prompts_count variation_step_Some replicate_step_unset
        truncate_step_unset style_step_def tag_expansion_def)
qed

theorem variation_step_nested_witness:
  "variation_step (Some [lit ''lighting'', lit ''angle''])
      [lit ''cat, a style'', lit ''cat, b style''] =
     [lit ''cat, a style, dramatic lighting'', lit ''cat, a style, soft lighting'',
      lit ''cat, a style, angle'',
      lit ''cat, b style, dramatic lighting'', lit ''cat, b style, soft lighting'',
      lit ''cat, b style, angle'']
   \<and> expand_prompts (lit ''cat'')
        \<lparr>count = None, styles = Some [], variations = Some [lit ''mood'', lit ''x'']\<rparr> =
     Inr [lit ''cat, cheerful mood'', lit ''cat, dramatic mood'', lit ''cat, x'']"
  using variation_step_nested [of "[lit ''lighting'', lit ''angle'']"
      "[lit ''cat, a style'', lit ''cat, b style'']" "lit ''cat''" "Some []"]
  by (simp add: tag_expansion_def lit_def)

text \<open>
  Claim C5. For every base prompt and every non-empty style list \<open>S\<close>, with no variations
  and no count, the expansion has exactly \<open>length S\<close> prompts, the \<open>i\<close>-th of them is
  \<open>base, S[i] style\<close>, and the plain base prompt is not among them.
\<close>

theorem expand_styles:
  assumes "S \<noteq> []" and "styles opts = Some S" and "\<not> has_length (variations opts)"
    and "count opts = None"
  shows "\<exists>ps. expand_prompts base opts = Inr ps
    \<and> ps = map (\<lambda>s. base @ lit '', '' @ s @ lit '' style'') S
    \<and> length ps = length S
    \<and> (\<forall>i<length S. ps ! i = base @ lit '', '' @ S ! i @ lit '' style'')
    \<and> base \<notin> set ps"
proof -
  have "base \<noteq> base @ lit '', '' @ s @ lit '' style''" for s
    by (simp add: lit_def)
  then show ?thesis
    using assms
    by (auto simp add: expand_prompts_count style_step_Some variation_step_none
        replicate_step_unset truncate_step_unset)
qed

theorem expand_styles_witness:
  "expand_prompts (lit ''logo'')
      \<lparr>count = None, styles = Some [lit ''modern'', lit ''minimal''], variations = None\<rparr>
     = Inr [lit ''logo, modern style'', lit ''logo, minimal style'']
   \<and> lit ''logo'' \<notin> set [lit ''logo, modern style'', lit ''logo, minimal style'']"
  using expand_styles [of "[lit ''modern'', lit ''minimal'']"
      "\<lparr>count = None, styles = Some [lit ''modern'', lit ''minimal''], variations = None\<rparr>"
      "lit ''logo''"]
  by (auto simp: lit_def)

text \<open>
  Claim C6. For every count \<open>c\<close> that is a positive integer, the last step returns the first
  \<open>c\<close> elements of the list in their order: a longer list loses the elements beyond \<open>c\<close>, a
  list of at most \<open>c\<close> elements is returned as it is (nothing is padded). The whole expansion
  is the first \<open>c\<close> elements of the list that the earlier steps produce (or their error).
\<close>

theorem truncate_to_count:
  assumes "0 < c" and "count opts = Some (Number c)"
  shows "truncate_step (Some (Number c)) ps = take (nat c) ps
    \<and> (int (length ps) \<le> c \<longrightarrow> truncate_step (Some (Number c)) ps = ps)
    \<and> expand_prompts base opts =
        map_sum id (take (nat c)) (replicate_step base (count opts)
          (variation_step (variations opts) (style_step base (styles opts) [base])))"
proof -
  have "truncate_step (Some (Number c)) = take (nat c)"
    using assms(1) by (auto simp: truncate_step_pos)
  then show ?thesis
    using assms by (simp add: expand_prompts_count)
qed

theorem truncate_to_count_witness:
  "truncate_step (Some (Number 2)) [lit ''p1'', lit ''p2'', lit ''p3''] = [lit ''p1'', lit ''p2'']
   \<and> truncate_step (Some (Number 2)) [lit ''p1''] = [lit ''p1'']
   \<and> expand_prompts (lit ''logo'')
        \<lparr>count = Some (Number 2),
         styles = Some [lit ''a'', lit ''b'', lit ''c'', lit ''d'', lit ''e''], variations = None\<rparr>
      = Inr [lit ''logo, a style'', lit ''logo, b style'']"
  using truncate_to_count [of 2
      "\<lparr>count = Some (Number 2),
        styles = Some [lit ''a'', lit ''b'', lit ''c'', lit ''d'', lit ''e''], variations = None\<rparr>"
      "[lit ''p1'', lit ''p2'', lit ''p3'']" "lit ''logo''"]
    truncate_to_count [of 2
      "\<lparr>count = Some (Number 2),
        styles = Some [lit ''a'', lit ''b'', lit ''c'', lit ''d'', lit ''e''], variations = None\<rparr>"
      "[lit ''p1'']" "lit ''logo''"]
  by (simp add: replicate_step_def variation_step_def style_step_def eval_nat_numeral lit_def)

section \<open>Properties of the slug\<close>

lemma squeeze_ws_True: "squeeze_ws True cs = squeeze_ws False (dropWhile isSpace cs)"
  by (induction cs) auto

lemma collapse_ws_squeeze: "collapse_ws s = squeeze_ws False s"
  by (induction s rule: collapse_ws.induct) (auto simp: squeeze_ws_True)

lemma slug_spec_slug: "slug lower p = spec_slug lower p"
  by (simp add: slug_def spec_slug_def Let_def strip_other_def collapse_ws_squeeze)

lemma slug_length: "length (slug lower p) \<le> 32"
  by (simp add: slug_def Let_def lit_def)

lemma slug_fallback:
  "(\<forall>c\<in>set (lower p). \<not> isLowerAlnum c \<and> \<not> isSpace c) \<Longrightarrow> slug lower p = lit ''image''"
  by (simp add: slug_def strip_other_def filter_empty_conv)

lemma genFilename_first_candidate:
  "slug lower p @ lit ''.png'' \<notin> dir \<Longrightarrow>
   genFilename lower p idx dir = Some (slug lower p @ lit ''.png'')"
  by (simp add: genFilename_def genFilename_run_def Let_def genFilename_loop.simps)

lemma slug_blank: "slug toLowerCase_ascii (lit '' '') = lit ''_''"
  by (simp add: slug_def toLowerCase_ascii_def strip_other_def isSpace_def isLowerAlnum_def
      lit_def)

text \<open>
  Claim C2, as stated, fails: the prompt that is one blank has no alphanumeric character, yet
  its slug is \<open>_\<close> and the file name is \<open>_.png\<close>, not \<open>image.png\<close>.
\<close>

theorem slug_blank_counterexample:
  "lit '' '' = [32] \<and> \<not> isAlnum 32 \<and> toLowerCase_ascii (lit '' '') = lit '' ''
   \<and> slug toLowerCase_ascii (lit '' '') = lit ''_''
   \<and> genFilename toLowerCase_ascii (lit '' '') 0 {} = Some (lit ''_.png'')"
proof -
  have name: "lit ''_'' @ lit ''.png'' = lit ''_.png''"
    by (simp add: lit_def)
  have "genFilename toLowerCase_ascii (lit '' '') 0 {} = Some (lit ''_.png'')"
    using genFilename_first_candidate [of toLowerCase_ascii "lit '' ''" "{}" 0]
    by (simp add: slug_blank name)
  moreover have "lit '' '' = [32]" and "\<not> isAlnum 32"
    and "toLowerCase_ascii (lit '' '') = lit '' ''"
    by (simp_all add: isAlnum_def isLowerAlnum_def toLowerCase_ascii_def lit_def)
  ultimately show ?thesis
    using slug_blank by blast
qed

text \<open>
  Claim C2, amended. For every prompt text the slug is the specified one: the lowercased
  text without the characters outside \<open>[a-z0-9]\<close> and whitespace, each run of whitespace
  replaced by one underscore, cut to its first 32 characters, and \<open>image\<close> when that is empty.
  Every slug has at most 32 characters. A prompt whose lowercased text has neither a character
  of \<open>[a-z0-9]\<close> nor a whitespace character has the slug \<open>image\<close> and gets the name
  \<open>image.png\<close> when that name is free. (The condition is on the lowercased text: the
  lowercase form of a character outside \<open>[A-Za-z0-9]\<close> can lie in \<open>[a-z]\<close>, as for the
  Kelvin sign U+212A.)
\<close>

theorem slug_as_specified:
  "slug lower p = spec_slug lower p
   \<and> length (slug lower p) \<le> 32
   \<and> ((\<forall>c\<in>set (lower p). \<not> isLowerAlnum c \<and> \<not> isSpace c) \<longrightarrow>
        slug lower p = lit ''image''
        \<and> (lit ''image.png'' \<notin> dir \<longrightarrow> genFilename lower p idx dir = Some (lit ''image.png'')))"
proof -
  have name: "lit ''image'' @ lit ''.png'' = lit ''image.png''"
    by (simp add: lit_def)
  have "genFilename lower p idx dir = Some (lit ''image.png'')"
    if "slug lower p = lit ''image''" and "lit ''image.png'' \<notin> dir"
    using that genFilename_first_candidate [of lower p dir idx] by (simp add: name)
  then show ?thesis
    using slug_spec_slug [of lower p] slug_fallback [of lower p] slug_length [of lower p]
    by blast
qed

theorem slug_as_specified_witness:
  "\<not> isLowerAlnum 33 \<and> \<not> isSpace 33
   \<and> toLowerCase_ascii (lit ''!!!'') = [33, 33, 33]
   \<and> slug toLowerCase_ascii (lit ''!!!'') = lit ''image''
   \<and> genFilename toLowerCase_ascii (lit ''!!!'') 0 {} = Some (lit ''image.png'')
   \<and> length (slug toLowerCase_ascii (lit ''!!!'')) \<le> 32
   \<and> spec_slug toLowerCase_ascii (lit ''A Beautiful Sunset!'') = lit ''a_beautiful_sunset''"
proof -
  have char: "\<not> isLowerAlnum 33 \<and> \<not> isSpace 33"
    by (simp add: isLowerAlnum_def isSpace_def)
  have low: "toLowerCase_ascii (lit ''!!!'') = [33, 33, 33]"
    by (simp add: toLowerCase_ascii_def lit_def)
  have chars: "\<forall>c\<in>set (toLowerCase_ascii (lit ''!!!'')). \<not> isLowerAlnum c \<and> \<not> isSpace c"
    unfolding low using char by simp
  have example:
    "spec_slug toLowerCase_ascii (lit ''A Beautiful Sunset!'') = lit ''a_beautiful_sunset''"
    by (simp add: spec_slug_def toLowerCase_ascii_def isLowerAlnum_def isSpace_def lit_def)
  have "slug toLowerCase_ascii (lit ''!!!'') = lit ''image''
      \<and> genFilename toLowerCase_ascii (lit ''!!!'') 0 {} = Some (lit ''image.png'')
      \<and> length (slug toLowerCase_ascii (lit ''!!!'')) \<le> 32"
    using chars slug_as_specified [of toLowerCase_ascii "lit ''!!!''" "{}" 0] by blast
  then show ?thesis
    using char low example by blast
qed

section \<open>Properties of the credential and of the command line\<close>

lemma getApiKey_first_non_empty:
  "getApiKey env =
     (case first_non_empty env
             [''NANOBANANA_GEMINI_API_KEY'', ''GEMINI_API_KEY'', ''GOOGLE_API_KEY''] of
        Some k \<Rightarrow> Inr k | None \<Rightarrow> Inl NoApiKey)"
  by (auto simp: getApiKey_def js_or_def truthy_def Let_def split: option.splits)

lemma generate_no_key:
  assumes "getApiKey env = Inl e"
  shows "generate lower env api out disk0 prompt opts = Some (Inl e)"
  using assms by (simp add: generate_def)

lemma main_generate_no_key:
  assumes "getApiKey env = Inl e"
  shows "\<exists>line. main_generate lower env api out disk0 pos flags =
     Some (1, \<lparr>files = [], disk = disk0, console = [ConsoleError line], requests = []\<rparr>)"
  using generate_no_key [OF assms] by (simp add: main_generate_def Let_def)

text \<open>
  Claim C8, as stated, fails: with the override variable and \<open>GEMINI_API_KEY\<close> both set, the
  program takes the override, whereas the first non-empty value in the order
  \<open>GEMINI_API_KEY\<close>, \<open>GOOGLE_API_KEY\<close>, override is the value of \<open>GEMINI_API_KEY\<close>.
\<close>

theorem getApiKey_order_counterexample:
  "getApiKey env_with_override = Inr (lit ''override'')
   \<and> first_non_empty env_with_override
        [''GEMINI_API_KEY'', ''GOOGLE_API_KEY'', ''NANOBANANA_GEMINI_API_KEY'']
      = Some (lit ''gemini'')"
  by (simp add: env_with_override_def getApiKey_def js_or_def truthy_def lit_def)

text \<open>
  Claim C8, amended. The credential is the first non-empty value in the order
  \<open>NANOBANANA_GEMINI_API_KEY\<close> (the override), \<open>GEMINI_API_KEY\<close>, \<open>GOOGLE_API_KEY\<close>. When none
  is set to a non-empty text, \<open>generate\<close> throws before it does anything else, and the command
  exits with code 1 after one error line and without a request to the service.
\<close>

theorem getApiKey_priority:
  "getApiKey env =
     (case first_non_empty env
             [''NANOBANANA_GEMINI_API_KEY'', ''GEMINI_API_KEY'', ''GOOGLE_API_KEY''] of
        Some k \<Rightarrow> Inr k | None \<Rightarrow> Inl NoApiKey)
   \<and> (first_non_empty env
         [''NANOBANANA_GEMINI_API_KEY'', ''GEMINI_API_KEY'', ''GOOGLE_API_KEY''] = None \<longrightarrow>
        generate lower env api out disk0 prompt opts = Some (Inl NoApiKey)
        \<and> (\<exists>line. main_generate lower env api out disk0 pos flags =
              Some (1, \<lparr>files = [], disk = disk0, console = [ConsoleError line], requests = []\<rparr>))
        \<and> (join_with (lit '' '') pos \<noteq> [] \<longrightarrow>
             main_generate lower env api out disk0 pos flags =
               Some (1, \<lparr>files = [], disk = disk0,
                          console = [ConsoleError (error_text NoApiKey)], requests = []\<rparr>)))"
proof -
  have "getApiKey env = Inl NoApiKey"
    if "first_non_empty env
          [''NANOBANANA_GEMINI_API_KEY'', ''GEMINI_API_KEY'', ''GOOGLE_API_KEY''] = None"
    using that by (simp add: getApiKey_first_non_empty)
  moreover have "main_generate lower env api out disk0 pos flags =
      Some (1, \<lparr>files = [], disk = disk0,
                 console = [ConsoleError (error_text NoApiKey)], requests = []\<rparr>)"
    if "getApiKey env = Inl NoApiKey" and "join_with (lit '' '') pos \<noteq> []"
    using that by (simp add: main_generate_def generate_no_key)
  ultimately show ?thesis
    using getApiKey_first_non_empty [of env] generate_no_key main_generate_no_key by blast
qed

theorem getApiKey_priority_witness:
  "first_non_empty Map.empty
      [''NANOBANANA_GEMINI_API_KEY'', ''GEMINI_API_KEY'', ''GOOGLE_API_KEY''] = None
   \<and> getApiKey Map.empty = Inl NoApiKey
   \<and> generate toLowerCase_ascii Map.empty flaky_api (lit ''out'') no_files (lit ''cat'')
       (main_options Map.empty) = Some (Inl NoApiKey)
   \<and> main_generate toLowerCase_ascii Map.empty flaky_api (lit ''out'') no_files [lit ''cat'']
       Map.empty =
       Some (1, \<lparr>files = [], disk = no_files,
                  console = [ConsoleError
                    (lit ''No API key found. Set GEMINI_API_KEY environment variable.'')],
                  requests = []\<rparr>)
   \<and> getApiKey env_with_key = Inr (lit ''secret'')"
proof -
  have p: "join_with (lit '' '') [lit ''cat''] \<noteq> []"
    by (simp add: lit_def)
  have none: "first_non_empty Map.empty
      [''NANOBANANA_GEMINI_API_KEY'', ''GEMINI_API_KEY'', ''GOOGLE_API_KEY''] = None"
    by (simp add: truthy_def)
  show ?thesis
    using getApiKey_priority [of Map.empty toLowerCase_ascii flaky_api "lit ''out''" no_files
        "lit ''cat''" "main_options Map.empty" "[lit ''cat'']" Map.empty]
      p none getApiKey_env_with_key
    by (simp add: error_text_def)
qed

section \<open>Properties of the batch loop\<close>

lemma genFilename_fresh:
  assumes "finite dir"
  shows "\<exists>name. genFilename lower p i dir = Some name \<and> name \<notin> dir"
proof -
  obtain k where "candidate (slug lower p) (start_counter i) k \<notin> dir"
    and "genFilename_run lower p i dir
          = Some (candidate (slug lower p) (start_counter i) k, Suc k)"
    using genFilename_run_first_free [OF assms] by blast
  then show ?thesis by (simp add: genFilename_def)
qed

text \<open>An item without image data changes neither the file list nor the directory.\<close>

lemma generate_item_failure:
  assumes "item_image api i p = None"
  shows "generate_item lower api out i p st =
     Some (st\<lparr>requests := requests st @ [p], console := console st @ failure_lines api i p\<rparr>)"
  using assms
  by (auto simp: generate_item_def item_image_def failure_lines_def Let_def
      split: api_result.splits)

text \<open>An item with image data writes it under a name that did not exist.\<close>

lemma generate_item_success:
  assumes "finite (dom (disk st))" and "item_image api i p = Some b64"
  shows "\<exists>name. name \<notin> dom (disk st) \<and> genFilename lower p i (dom (disk st)) = Some name \<and>
     generate_item lower api out i p st =
       Some (st\<lparr>requests := requests st @ [p], disk := (disk st)(name \<mapsto> b64),
                files := files st @ [path_join out name],
                console := console st @ [ConsoleLog (lit ''  '' @ path_join out name)]\<rparr>)"
proof -
  obtain name where n: "genFilename lower p i (dom (disk st)) = Some name"
    "name \<notin> dom (disk st)"
    using genFilename_fresh [OF assms(1)] by blast
  from assms(2) obtain parts where r: "api i p = Response parts" "first_image parts = Some b64"
    by (auto simp: item_image_def split: api_result.splits)
  show ?thesis
    using n r by (intro exI [of _ name]) (simp add: generate_item_def Let_def saveImage_def)
qed

lemma generate_item_total:
  assumes "finite (dom (disk st))"
  shows "\<exists>st'. generate_item lower api out i p st = Some st' \<and> finite (dom (disk st'))
     \<and> requests st' = requests st @ [p]
     \<and> disk st \<subseteq>\<^sub>m disk st'
     \<and> prefix (files st) (files st')
     \<and> length (files st') = length (files st) + (if item_image api i p = None then 0 else 1)"
proof (cases "item_image api i p")
  case None
  then show ?thesis
    using assms by (simp add: generate_item_failure)
next
  case (Some b64)
  obtain name where "name \<notin> dom (disk st)" and
    "generate_item lower api out i p st =
       Some (st\<lparr>requests := requests st @ [p], disk := (disk st)(name \<mapsto> b64),
                files := files st @ [path_join out name],
                console := console st @ [ConsoleLog (lit ''  '' @ path_join out name)]\<rparr>)"
    using generate_item_success [OF assms Some] by blast
  then show ?thesis
    using assms Some by (auto simp: map_le_def)
qed

text \<open>
  On a directory with finitely many files the loop returns; it submits every prompt, keeps
  every file that was there, and adds one entry to the file list per item with image data.
\<close>

lemma generate_loop_total:
  assumes "finite (dom (disk st))"
  shows "\<exists>st'. generate_loop lower api out i ps st = Some st' \<and> finite (dom (disk st'))
     \<and> requests st' = requests st @ ps
     \<and> disk st \<subseteq>\<^sub>m disk st'
     \<and> prefix (files st) (files st')
     \<and> length (files st') = length (files st) + successes api i ps"
  using assms
proof (induction ps arbitrary: i st)
  case Nil
  then show ?case by simp
next
  case (Cons p ps)
  obtain st1 where s1: "generate_item lower api out i p st = Some st1" "finite (dom (disk st1))"
     "requests st1 = requests st @ [p]" "disk st \<subseteq>\<^sub>m disk st1" "prefix (files st) (files st1)"
     "length (files st1) = length (files st) + (if item_image api i p = None then 0 else 1)"
    using generate_item_total [OF Cons.prems] by blast
  obtain st' where s2: "generate_loop lower api out (Suc i) ps st1 = Some st'"
     "finite (dom (disk st'))"
     "requests st' = requests st1 @ ps" "disk st1 \<subseteq>\<^sub>m disk st'" "prefix (files st1) (files st')"
     "length (files st') = length (files st1) + successes api (Suc i) ps"
    using Cons.IH [OF s1(2)] by blast
  have "disk st \<subseteq>\<^sub>m disk st'"
    using s1(4) s2(4) by (rule map_le_trans)
  moreover have "prefix (files st) (files st')"
    using s1(5) s2(5) by (rule prefix_order.trans)
  ultimately show ?case
    using s1 s2 by simp
qed

lemma generate_loop_append:
  "generate_loop lower api out i (ps1 @ ps2) st =
     (case generate_loop lower api out i ps1 st of
        None \<Rightarrow> None
      | Some st1 \<Rightarrow> generate_loop lower api out (i + length ps1) ps2 st1)"
  by (induction ps1 arbitrary: i st) (auto split: option.splits)

lemma generate_requests:
  assumes "getApiKey env = Inr key" and "finite (dom disk0)"
    and "expand_prompts prompt opts = Inr ps"
  shows "\<exists>st. generate lower env api out disk0 prompt opts = Some (Inr st) \<and> requests st = ps"
proof -
  let ?st0 = "\<lparr>files = [], disk = disk0,
      console = [ConsoleLog (lit ''Generating '' @ showNat (length ps) @ lit '' image(s)...'')],
      requests = []\<rparr>"
  have "finite (dom (disk ?st0))"
    using assms(2) by simp
  then obtain st where "generate_loop lower api out 0 ps ?st0 = Some st"
    and "requests st = requests ?st0 @ ps"
    using generate_loop_total [of ?st0 lower api out 0 ps] by blast
  then show ?thesis
    using assms(1,3) by (simp add: generate_def Let_def)
qed

lemma generate_expand_error:
  assumes "getApiKey env = Inr key" and "expand_prompts prompt opts = Inl e"
  shows "generate lower env api out disk0 prompt opts = Some (Inl e)"
  using assms by (simp add: generate_def)

text \<open>
  Claim C7, as stated, fails where it says that the failure is logged: for a response without
  image data nothing is written to the console but the announcement of the batch.
\<close>

theorem generate_silent_counterexample:
  "item_image empty_api 0 (lit ''cat'') = None
   \<and> generate toLowerCase_ascii env_with_key empty_api (lit ''out'') no_files (lit ''cat'')
        \<lparr>count = None, styles = None, variations = None\<rparr> =
      Some (Inr \<lparr>files = [], disk = no_files,
                 console = [ConsoleLog (lit ''Generating 1 image(s)...'')],
                 requests = [lit ''cat'']\<rparr>)"
proof -
  have line: "lit ''Generating '' @ showNat (Suc 0) @ lit '' image(s)...''
      = lit ''Generating 1 image(s)...''"
    by (simp add: showNat_1) (simp add: lit_def)
  show ?thesis
    by (simp add: item_image_def empty_api_def generate_def getApiKey_env_with_key
        expand_prompts_def style_step_def variation_step_def replicate_step_def
        truncate_step_def generate_item_def line)
qed

text \<open>
  Claim C7, amended. In a batch that starts on a directory with finitely many files, an item
  that fails (the call throws, or the response has no image data) does not end the batch: the
  items before it, the item itself and the items after it are all processed and every prompt
  is submitted; the failing item adds nothing to the file list and leaves the directory as it
  is; an exception adds one error line to the console and a response without image data adds
  no line; the files written before the failing item are in the final directory with their
  content and in the returned list.
\<close>

theorem generate_continues_after_failure:
  assumes "finite (dom (disk st))" and "item_image api (i + length ps1) p = None"
  shows "\<exists>st1 st2 st'.
      generate_loop lower api out i ps1 st = Some st1
    \<and> generate_item lower api out (i + length ps1) p st1 = Some st2
    \<and> generate_loop lower api out (Suc (i + length ps1)) ps2 st2 = Some st'
    \<and> generate_loop lower api out i (ps1 @ p # ps2) st = Some st'
    \<and> files st2 = files st1 \<and> disk st2 = disk st1
    \<and> console st2 = console st1 @ failure_lines api (i + length ps1) p
    \<and> requests st' = requests st @ ps1 @ p # ps2
    \<and> disk st1 \<subseteq>\<^sub>m disk st' \<and> prefix (files st1) (files st')
    \<and> length (files st') =
        length (files st) + successes api i ps1 + successes api (Suc (i + length ps1)) ps2"
proof -
  obtain st1 where s1: "generate_loop lower api out i ps1 st = Some st1"
     "finite (dom (disk st1))" "requests st1 = requests st @ ps1"
     "length (files st1) = length (files st) + successes api i ps1"
    using generate_loop_total [OF assms(1)] by blast
  define st2 where "st2 = st1\<lparr>requests := requests st1 @ [p],
      console := console st1 @ failure_lines api (i + length ps1) p\<rparr>"
  have s2: "generate_item lower api out (i + length ps1) p st1 = Some st2"
    unfolding st2_def using assms(2) by (rule generate_item_failure)
  have f2: "finite (dom (disk st2))"
    using s1(2) by (simp add: st2_def)
  obtain st' where s3: "generate_loop lower api out (Suc (i + length ps1)) ps2 st2 = Some st'"
     "requests st' = requests st2 @ ps2" "disk st2 \<subseteq>\<^sub>m disk st'" "prefix (files st2) (files st')"
     "length (files st') = length (files st2) + successes api (Suc (i + length ps1)) ps2"
    using generate_loop_total [OF f2] by blast
  have "generate_loop lower api out i (ps1 @ p # ps2) st = Some st'"
    using s1(1) s2 s3(1) by (simp add: generate_loop_append)
  then show ?thesis
    using s1 s2 s3 by (intro exI [of _ st1] exI [of _ st2] exI [of _ st']) (simp add: st2_def)
qed

lemma slug_single_letters:
  "slug toLowerCase_ascii [97] = [97]" "slug toLowerCase_ascii [98] = [98]"
  "slug toLowerCase_ascii [99] = [99]" "slug toLowerCase_ascii [100] = [100]"
  "slug toLowerCase_ascii [101] = [101]"
  by (simp_all add: slug_def toLowerCase_ascii_def strip_other_def isSpace_def isLowerAlnum_def)

text \<open>Five prompts, the third call fails: four files are written and the failure is logged.\<close>

lemma generate_loop_flaky_run:
  "generate_loop toLowerCase_ascii flaky_api (lit ''out'') 0
      [lit ''a'', lit ''b'', lit ''c'', lit ''d'', lit ''e''] initial_state =
     Some \<lparr>files = [lit ''out/a.png'', lit ''out/b.png'', lit ''out/d.png'', lit ''out/e.png''],
           disk = [lit ''a.png'' \<mapsto> lit ''iVBORw0KGgo='', lit ''b.png'' \<mapsto> lit ''iVBORw0KGgo='',
                   lit ''d.png'' \<mapsto> lit ''iVBORw0KGgo='', lit ''e.png'' \<mapsto> lit ''iVBORw0KGgo=''],
           console = [ConsoleLog (lit ''  out/a.png''), ConsoleLog (lit ''  out/b.png''),
                      ConsoleError (lit ''  Error: quota exceeded''),
                      ConsoleLog (lit ''  out/d.png''), ConsoleLog (lit ''  out/e.png'')],
           requests = [lit ''a'', lit ''b'', lit ''c'', lit ''d'', lit ''e'']\<rparr>"
  by (simp add: initial_state_def no_files_def generate_item_def flaky_api_def part_b64_def
      truthy_def genFilename_first_candidate slug_single_letters saveImage_def path_join_def
      lit_def)

theorem generate_continues_after_failure_witness:
  "finite (dom (disk initial_state))
   \<and> item_image flaky_api 2 (lit ''c'') = None
   \<and> failure_lines flaky_api 2 (lit ''c'') = [ConsoleError (lit ''  Error: quota exceeded'')]
   \<and> (\<exists>st'. generate_loop toLowerCase_ascii flaky_api (lit ''out'') 0
               [lit ''a'', lit ''b'', lit ''c'', lit ''d'', lit ''e''] initial_state = Some st'
        \<and> requests st' = [lit ''a'', lit ''b'', lit ''c'', lit ''d'', lit ''e'']
        \<and> length (files st') = 4
        \<and> files st' = [lit ''out/a.png'', lit ''out/b.png'', lit ''out/d.png'', lit ''out/e.png''])"
proof -
  have fin: "finite (dom (disk initial_state))"
    by (simp add: initial_state_def no_files_def)
  have fail: "item_image flaky_api (0 + length [lit ''a'', lit ''b'']) (lit ''c'') = None"
    by (simp add: item_image_def flaky_api_def)
  have fail2: "item_image flaky_api 2 (lit ''c'') = None"
    by (simp add: item_image_def flaky_api_def)
  have lines:
    "failure_lines flaky_api 2 (lit ''c'') = [ConsoleError (lit ''  Error: quota exceeded'')]"
    by (simp add: failure_lines_def flaky_api_def lit_def)
  have succ: "successes flaky_api 0 [lit ''a'', lit ''b''] = 2"
    "successes flaky_api (Suc (0 + length [lit ''a'', lit ''b''])) [lit ''d'', lit ''e''] = 2"
    by (simp_all add: item_image_def flaky_api_def part_b64_def truthy_def lit_def)
  obtain st' where
    "generate_loop toLowerCase_ascii flaky_api (lit ''out'') 0
       ([lit ''a'', lit ''b''] @ lit ''c'' # [lit ''d'', lit ''e'']) initial_state = Some st'"
    and "requests st' = requests initial_state @ [lit ''a'', lit ''b'']
           @ lit ''c'' # [lit ''d'', lit ''e'']"
    and "length (files st') = length (files initial_state)
          + successes flaky_api 0 [lit ''a'', lit ''b'']
          + successes flaky_api (Suc (0 + length [lit ''a'', lit ''b''])) [lit ''d'', lit ''e'']"
    using generate_continues_after_failure [OF fin fail, of toLowerCase_ascii "lit ''out''"
        "[lit ''d'', lit ''e'']"] by blast
  then have run: "generate_loop toLowerCase_ascii flaky_api (lit ''out'') 0
            [lit ''a'', lit ''b'', lit ''c'', lit ''d'', lit ''e''] initial_state = Some st'
        \<and> requests st' = [lit ''a'', lit ''b'', lit ''c'', lit ''d'', lit ''e'']
        \<and> length (files st') = 4"
    unfolding succ by (simp add: initial_state_def)
  then have
    "files st' = [lit ''out/a.png'', lit ''out/b.png'', lit ''out/d.png'', lit ''out/e.png'']"
    using generate_loop_flaky_run by simp
  then show ?thesis
    using fin fail2 lines run by blast
qed

section \<open>Properties of the count option\<close>

lemma parseInt_Nil: "parseInt [] = NaN"
  by (simp add: parseInt_def)

lemma parseInt_20: "parseInt (lit ''20'') = Number 20"
  by (simp add: parseInt_def isSpace_def isRadixDigit_def digit_value_def Let_def lit_def)

lemma parseInt_4: "parseInt (lit ''4'') = Number 4"
  by (simp add: parseInt_def isSpace_def isRadixDigit_def digit_value_def Let_def lit_def)

lemma expand_length_le:
  assumes "0 < c" and "count opts = Some (Number c)" and "expand_prompts prompt opts = Inr ps"
  shows "length ps \<le> nat c"
proof -
  obtain qs where "ps = truncate_step (Some (Number c)) qs"
    using assms(2,3) by (auto simp: expand_prompts_def Let_def split: sum.splits)
  then show ?thesis
    using assms(1) by (simp add: truncate_step_pos)
qed

text \<open>The command returns, and what it submits is nothing or the expanded list.\<close>

lemma main_generate_requests:
  assumes "finite (dom disk0)"
  shows "\<exists>code st. main_generate lower env api out disk0 pos flags = Some (code, st)
    \<and> (requests st = []
        \<or> expand_prompts (join_with (lit '' '') pos) (main_options flags) = Inr (requests st))"
proof (cases "join_with (lit '' '') pos = []")
  case True
  then show ?thesis by (simp add: main_generate_def)
next
  case False
  show ?thesis
  proof (cases "getApiKey env")
    case (Inl e)
    then show ?thesis
      using False by (simp add: main_generate_def generate_no_key)
  next
    case (Inr key)
    show ?thesis
    proof (cases "expand_prompts (join_with (lit '' '') pos) (main_options flags)")
      case (Inl e)
      then show ?thesis
        using False generate_expand_error [OF Inr Inl] by (simp add: main_generate_def)
    next
      case ps: (Inr ps)
      obtain st where
        "generate lower env api out disk0 (join_with (lit '' '') pos) (main_options flags)
           = Some (Inr st)"
        and "requests st = ps"
        using generate_requests [OF Inr assms ps] by blast
      then show ?thesis
        using False ps by (simp add: main_generate_def)
    qed
  qed
qed

text \<open>
  Claim C9, as stated, fails: the flag \<open>--count=20\<close> is passed on as the count 20, and twenty
  prompts are submitted.
\<close>

theorem count_unchecked_counterexample:
  "count (main_options flags_count_20) = Some (Number 20)
   \<and> map_option (length \<circ> requests \<circ> snd)
       (main_generate toLowerCase_ascii env_with_key failing_api (lit ''out'') no_files
          [lit ''cat''] flags_count_20) = Some 20"
proof -
  have opts: "main_options flags_count_20 =
      \<lparr>count = Some (Number 20), styles = None, variations = None\<rparr>"
    by (simp add: main_options_def flags_count_20_def truthy_def parseInt_20)
      (simp add: lit_def)
  have ex: "expand_prompts (lit ''cat'') (main_options flags_count_20)
      = Inr (replicate 20 (lit ''cat''))"
    unfolding opts
    by (simp add: expand_prompts_def style_step_def variation_step_def replicate_step_def
        array_fill_def truncate_step_def)
  have "finite (dom no_files)"
    by (simp add: no_files_def)
  then obtain st where
    "generate toLowerCase_ascii env_with_key failing_api (lit ''out'') no_files (lit ''cat'')
       (main_options flags_count_20) = Some (Inr st)"
    and "requests st = replicate 20 (lit ''cat'')"
    using generate_requests [OF getApiKey_env_with_key _ ex] by blast
  moreover have "join_with (lit '' '') [lit ''cat''] = lit ''cat''" and "lit ''cat'' \<noteq> []"
    by (simp_all add: lit_def)
  ultimately show ?thesis
    using opts by (simp add: main_generate_def)
qed

text \<open>
  Claim C9, amended. The count is not checked against the range 1 to 8: the count used is
  what \<open>parseInt\<close> makes of the text of the flag. Whenever that is a positive integer \<open>c\<close>, the
  command submits at most \<open>c\<close> prompts, hence at most 8 when \<open>c\<close> is at most 8.
\<close>

theorem count_bounds_requests:
  assumes "flags ''count'' = Some s" and "parseInt s = Number c" and "0 < c"
    and "finite (dom disk0)"
  shows "count (main_options flags) = Some (Number c)
    \<and> (\<exists>code st. main_generate lower env api out disk0 pos flags = Some (code, st)
         \<and> length (requests st) \<le> nat c
         \<and> (c \<le> 8 \<longrightarrow> length (requests st) \<le> 8))"
proof -
  have "s \<noteq> []"
    using assms(2) parseInt_Nil by auto
  then have cnt: "count (main_options flags) = Some (Number c)"
    using assms(1,2) by (simp add: main_options_def truthy_def)
  obtain code st where m: "main_generate lower env api out disk0 pos flags = Some (code, st)"
    and "requests st = []
      \<or> expand_prompts (join_with (lit '' '') pos) (main_options flags) = Inr (requests st)"
    using main_generate_requests [OF assms(4)] by blast
  then have "length (requests st) \<le> nat c"
    using expand_length_le [OF assms(3) cnt] by auto
  then show ?thesis
    using cnt m by auto
qed

theorem count_bounds_requests_witness:
  "flags_count_4 ''count'' = Some (lit ''4'') \<and> parseInt (lit ''4'') = Number 4 \<and> (0::int) < 4
   \<and> finite (dom no_files)
   \<and> count (main_options flags_count_4) = Some (Number 4)
   \<and> (\<exists>code st. main_generate toLowerCase_ascii env_with_key flaky_api (lit ''out'') no_files
                    [lit ''cat''] flags_count_4 = Some (code, st)
         \<and> length (requests st) \<le> 8)"
proof -
  have f: "flags_count_4 ''count'' = Some (lit ''4'')"
    by (simp add: flags_count_4_def)
  have fin: "finite (dom no_files)"
    by (simp add: no_files_def)
  have pos: "(0::int) < 4"
    by simp
  show ?thesis
    using count_bounds_requests [where flags = flags_count_4 and s = "lit ''4''" and c = 4
        and ?disk0.0 = no_files and lower = toLowerCase_ascii and env = env_with_key
        and api = flaky_api and out = "lit ''out''" and pos = "[lit ''cat'']",
        OF f parseInt_4 pos fin] f parseInt_4 fin
    by auto
qed

end
